theory Spec2Isabelle
  imports Main "HOL-Library.Word" "HOL-Library.Sublist"
begin

section \<open>Data model\<close>

subsection \<open>Result codes and records of the OpenXR headers\<close>

text \<open>
  \<open>XrResult\<close> is a 32-bit signed enumeration of \<open>openxr.h\<close>; the wrapper only compares
  it with zero (\<open>XR_SUCCEEDED\<close>) and produces three of its constants, so it is carried as
  an integer. The numeric values are those of the OpenXR 1.0 header the wrapper includes
  through \<open>pch.h\<close>.
\<close>

type_synonym XrResult = int

definition XR_SUCCESS :: XrResult where
  "XR_SUCCESS = 0"

definition XR_ERROR_SIZE_INSUFFICIENT :: XrResult where
  "XR_ERROR_SIZE_INSUFFICIENT = - 11"

definition XR_ERROR_FILE_ACCESS_ERROR :: XrResult where
  "XR_ERROR_FILE_ACCESS_ERROR = - 32"

definition XR_SUCCEEDED :: "XrResult \<Rightarrow> bool" where
  "XR_SUCCEEDED result \<longleftrightarrow> result \<ge> 0"

definition XR_TYPE_EXTENSION_PROPERTIES :: nat where
  "XR_TYPE_EXTENSION_PROPERTIES = 2"

text \<open>
  A function pointer is a symbolic address: null, one of the two functions the wrapper
  itself defines, or an address inside some other module.
\<close>

datatype PFN_xrVoidFunction =
    nullptr
  | wrapper_xrGetInstanceProcAddr
  | wrapper_xrEnumerateInstanceExtensionProperties
  | foreign nat

text \<open>
  \<open>XrExtensionProperties\<close>: the structure tag, the extension chain pointer, the name
  (a NUL-terminated \<open>char[128]\<close>, carried as the string before the NUL) and the version.
\<close>

record XrExtensionProperties =
  type :: nat
  "next" :: nat
  extensionName :: string
  extensionVersion :: "32 word"

text \<open>The aggregate \<open>{XR_TYPE_EXTENSION_PROPERTIES}\<close>: every other member is zero.\<close>

definition blank_properties :: XrExtensionProperties where
  "blank_properties =
     \<lparr>type = XR_TYPE_EXTENSION_PROPERTIES, next = 0, extensionName = [], extensionVersion = 0\<rparr>"

type_synonym buffer = "XrExtensionProperties list"

text \<open>
  \<open>XrNegotiateRuntimeRequest\<close> of the loader interface header. The wrapper reads and
  writes only \<open>getInstanceProcAddr\<close>. \<open>XrNegotiateLoaderInfo\<close> is only ever passed
  on by pointer, so it stays a type parameter \<open>'i\<close>.
\<close>

record XrNegotiateRuntimeRequest =
  structType :: nat
  structVersion :: "32 word"
  structSize :: nat
  runtimeInterfaceVersion :: "32 word"
  runtimeApiVersion :: "64 word"
  getInstanceProcAddr :: PFN_xrVoidFunction

type_synonym XrInstance = "64 word"

type_synonym HMODULE = nat

subsection \<open>The chained runtime\<close>

text \<open>
  The code behind a foreign function pointer is not part of the wrapper. It is a parameter:
  for each of the three signatures the wrapper calls through, a function from the pointer
  called, the arguments and the state \<open>'w\<close> of everything outside the wrapper to the
  returned code, the values left in the output parameters, and the new outside state.
  An output array is passed as \<open>Some\<close> of its content, a null pointer as \<open>None\<close>.
  The count pointer is taken to be valid, as the API requires: the wrapper dereferences it
  without a check.
\<close>

record ('i, 'w) chained_code =
  negotiate_at ::
    "PFN_xrVoidFunction \<Rightarrow> 'i \<Rightarrow> XrNegotiateRuntimeRequest \<Rightarrow> 'w
       \<Rightarrow> (XrResult \<times> XrNegotiateRuntimeRequest) \<times> 'w"
  getInstanceProcAddr_at ::
    "PFN_xrVoidFunction \<Rightarrow> XrInstance \<Rightarrow> string \<Rightarrow> PFN_xrVoidFunction \<Rightarrow> 'w
       \<Rightarrow> (XrResult \<times> PFN_xrVoidFunction) \<times> 'w"
  enumerate_at ::
    "PFN_xrVoidFunction \<Rightarrow> string option \<Rightarrow> 32 word \<Rightarrow> 32 word \<Rightarrow> buffer option \<Rightarrow> 'w
       \<Rightarrow> (XrResult \<times> 32 word \<times> buffer option) \<times> 'w"

text \<open>Calling through a null function pointer does not return.\<close>

datatype fault = NullFunctionCall

subsection \<open>The wrapper's globals\<close>

datatype log_entry =
    Masking_extension string
  | Unrecognized_option "32 word" string
  | Improperly_formatted_option "32 word"
  | Parsing_error "32 word"
  | Failed_to_open_file
  | Loading_runtime string
  | Failed_to_load_runtime string

record wrapper_state =
  chainedRuntimeModule :: "HMODULE option"
  next_xrNegotiateLoaderRuntimeInterface :: PFN_xrVoidFunction
  next_xrGetInstanceProcAddr :: PFN_xrVoidFunction
  next_xrEnumerateInstanceExtensionProperties :: PFN_xrVoidFunction
  extensionsToMask :: "string list"
  logged :: "log_entry list"

text \<open>The globals as the program starts: no module, null pointers, an empty list.\<close>

definition initial_state :: wrapper_state where
  "initial_state =
     \<lparr>chainedRuntimeModule = None,
      next_xrNegotiateLoaderRuntimeInterface = nullptr,
      next_xrGetInstanceProcAddr = nullptr,
      next_xrEnumerateInstanceExtensionProperties = nullptr,
      extensionsToMask = [],
      logged = []\<rparr>"

text \<open>\<open>Log\<close> formats one line and emits it; the model keeps what was logged, in order.\<close>

definition Log :: "log_entry \<Rightarrow> wrapper_state \<Rightarrow> wrapper_state" where
  "Log e s = s\<lparr>logged := logged s @ [e]\<rparr>"

section \<open>The masking loop of xrEnumerateInstanceExtensionProperties\<close>

text \<open>
  \<open>std::find_if\<close> returns the position of the first element satisfying the predicate, or
  the end position (the length) when there is none.
\<close>

fun find_if :: "('a \<Rightarrow> bool) \<Rightarrow> 'a list \<Rightarrow> nat" where
  "find_if P [] = 0"
| "find_if P (x # xs) = (if P x then 0 else Suc (find_if P xs))"

text \<open>\<open>std::vector::erase\<close> at a valid position removes that one element.\<close>

definition erase :: "nat \<Rightarrow> 'a list \<Rightarrow> 'a list" where
  "erase it xs = take it xs @ drop (Suc it) xs"

text \<open>One iteration of the loop over \<open>extensionsToMask\<close> (lines 74 to 83).\<close>

definition mask_one :: "string \<Rightarrow> XrExtensionProperties list \<Rightarrow> XrExtensionProperties list" where
  "mask_one extensionToMask propertiesArray =
     (let it = find_if (\<lambda>properties. extensionName properties = extensionToMask) propertiesArray
      in if it \<noteq> length propertiesArray then erase it propertiesArray else propertiesArray)"

text \<open>The whole loop: the entries of \<open>extensionsToMask\<close> are taken in order.\<close>

fun mask_extensions :: "string list \<Rightarrow> XrExtensionProperties list \<Rightarrow> XrExtensionProperties list" where
  "mask_extensions [] propertiesArray = propertiesArray"
| "mask_extensions (extensionToMask # rest) propertiesArray =
     mask_extensions rest (mask_one extensionToMask propertiesArray)"


section \<open>xrEnumerateInstanceExtensionProperties\<close>

text \<open>
  \<open>memcpy\<close> of \<open>n\<close> records to the start of the destination array. The destination is
  the content at the caller's pointer; when it holds fewer than \<open>n\<close> records the copy runs
  past its end, which shows as a result longer than the destination was.
\<close>

definition memcpy :: "buffer \<Rightarrow> buffer \<Rightarrow> nat \<Rightarrow> buffer" where
  "memcpy dst src n = take n src @ drop n dst"

text \<open>A call through \<open>next_xrEnumerateInstanceExtensionProperties\<close>.\<close>

definition call_enumerate ::
  "('i, 'w) chained_code \<Rightarrow> PFN_xrVoidFunction \<Rightarrow> string option \<Rightarrow> 32 word \<Rightarrow> 32 word
     \<Rightarrow> buffer option \<Rightarrow> 'w \<Rightarrow> fault + ((XrResult \<times> 32 word \<times> buffer option) \<times> 'w)" where
  "call_enumerate rt f layerName capacity count properties w =
     (if f = nullptr then Inl NullFunctionCall
      else Inr (enumerate_at rt f layerName capacity count properties w))"

text \<open>
  The function returns the result code, the value left in \<open>*propertyCountOutput\<close> and the
  content left at \<open>properties\<close>. The scratch vector is handed to the second chained call
  as \<open>Some\<close> of its content, also when it is empty. A callee cannot move the caller's
  array, so when the second chained call reports no content for the scratch array the
  array is as it was.
\<close>

definition xrEnumerateInstanceExtensionProperties ::
  "('i, 'w) chained_code \<Rightarrow> wrapper_state \<Rightarrow> string option \<Rightarrow> 32 word \<Rightarrow> 32 word
     \<Rightarrow> buffer option \<Rightarrow> 'w \<Rightarrow> fault + ((XrResult \<times> 32 word \<times> buffer option) \<times> 'w)" where
  "xrEnumerateInstanceExtensionProperties rt s layerName propertyCapacityInput propertyCountOutput
       properties w =
     (case layerName of
        None \<Rightarrow>
          (case call_enumerate rt (next_xrEnumerateInstanceExtensionProperties s)
                  None 0 propertyCountOutput None w of
             Inl f \<Rightarrow> Inl f
           | Inr ((result, count1, _), w1) \<Rightarrow>
               if XR_SUCCEEDED result then
                 (let propertiesArray = replicate (unat count1) blank_properties in
                  case call_enumerate rt (next_xrEnumerateInstanceExtensionProperties s)
                         None (of_nat (length propertiesArray)) count1 (Some propertiesArray) w1 of
                    Inl f \<Rightarrow> Inl f
                  | Inr ((result2, count2, written), w2) \<Rightarrow>
                      if XR_SUCCEEDED result2 then
                        (let propertiesArray' =
                               mask_extensions (extensionsToMask s)
                                 (case written of Some recs \<Rightarrow> recs | None \<Rightarrow> propertiesArray);
                             properties' =
                               (case properties of
                                  Some dst \<Rightarrow>
                                    Some (memcpy dst propertiesArray' (length propertiesArray'))
                                | None \<Rightarrow> None);
                             count3 = (of_nat (length propertiesArray') :: 32 word);
                             result3 =
                               (if propertyCapacityInput \<noteq> 0 \<and> propertyCapacityInput < count3
                                then XR_ERROR_SIZE_INSUFFICIENT else result2)
                         in Inr ((result3, count3, properties'), w2))
                      else Inr ((result2, count2, properties), w2))
               else Inr ((result, count1, properties), w1))
      | Some name \<Rightarrow>
          call_enumerate rt (next_xrEnumerateInstanceExtensionProperties s)
            (Some name) propertyCapacityInput propertyCountOutput properties w)"

section \<open>xrGetInstanceProcAddr\<close>

text \<open>
  The function returns the result code and the pointer left in \<open>*function\<close>, together with
  the wrapper's globals, of which it may set \<open>next_xrEnumerateInstanceExtensionProperties\<close>.
\<close>

definition xrGetInstanceProcAddr ::
  "('i, 'w) chained_code \<Rightarrow> wrapper_state \<Rightarrow> XrInstance \<Rightarrow> string \<Rightarrow> PFN_xrVoidFunction \<Rightarrow> 'w
     \<Rightarrow> fault + ((XrResult \<times> PFN_xrVoidFunction) \<times> wrapper_state \<times> 'w)" where
  "xrGetInstanceProcAddr rt s instance name function w =
     (if next_xrGetInstanceProcAddr s = nullptr then Inl NullFunctionCall
      else
        (case getInstanceProcAddr_at rt (next_xrGetInstanceProcAddr s) instance name function w of
           ((result, function'), w') \<Rightarrow>
             if XR_SUCCEEDED result then
               if name = ''xrEnumerateInstanceExtensionProperties'' then
                 Inr ((XR_SUCCESS, wrapper_xrEnumerateInstanceExtensionProperties),
                      s\<lparr>next_xrEnumerateInstanceExtensionProperties := function'\<rparr>, w')
               else Inr ((result, function'), s, w')
             else Inr ((result, function'), s, w')))"

section \<open>initializeWrapper\<close>

text \<open>
  What the function obtains from the operating system is a parameter: the directory of the
  wrapper's own module (empty when the lookup fails), the lines \<open>std::getline\<close> reads from
  the configuration file (\<open>None\<close> when the file cannot be opened), the path operator
  \<open>dllHome / name\<close> (\<open>None\<close> when building the path throws), \<open>LoadLibraryW\<close> and
  \<open>GetProcAddress\<close>.
\<close>

record system =
  dllHome :: string
  configFile :: "string list option"
  path_append :: "string \<Rightarrow> string \<Rightarrow> string option"
  LoadLibraryW :: "string \<Rightarrow> HMODULE option"
  GetProcAddress :: "HMODULE \<Rightarrow> string \<Rightarrow> PFN_xrVoidFunction"

text \<open>\<open>std::string::find\<close> of a character: the first position, or \<open>npos\<close> (\<open>None\<close>).\<close>

fun string_find :: "char \<Rightarrow> string \<Rightarrow> nat option" where
  "string_find c [] = None"
| "string_find c (x # xs) =
     (if x = c then Some 0 else map_option Suc (string_find c xs))"

text \<open>
  The body of the \<open>while\<close> loop on one line. The loop's variables are the line counter
  (an \<open>unsigned int\<close>), \<open>openXrRuntime\<close> and the globals. The only statement of the
  \<open>try\<close> block that is modelled as throwing is the construction of the runtime path.
\<close>

definition config_line ::
  "system \<Rightarrow> string \<Rightarrow> 32 word \<times> string \<times> wrapper_state \<Rightarrow> 32 word \<times> string \<times> wrapper_state" where
  "config_line sys line st =
     (case st of (lineNumber0, openXrRuntime, s) \<Rightarrow>
        let lineNumber = lineNumber0 + 1 in
        case string_find (CHR ''='') line of
          Some offset \<Rightarrow>
            (let name = take offset line;
                 val = drop (offset + 1) line
             in if name = ''runtime'' then
                  (case path_append sys (dllHome sys) (val @ ''.dll'') of
                     Some p \<Rightarrow> (lineNumber, p, s)
                   | None \<Rightarrow> (lineNumber, openXrRuntime, Log (Parsing_error lineNumber) s))
                else if name = ''maskExtension'' then
                  (lineNumber, openXrRuntime,
                   Log (Masking_extension val)
                     (s\<lparr>extensionsToMask := extensionsToMask s @ [val]\<rparr>))
                else (lineNumber, openXrRuntime, Log (Unrecognized_option lineNumber name) s))
        | None \<Rightarrow> (lineNumber, openXrRuntime, Log (Improperly_formatted_option lineNumber) s))"

text \<open>The loop \<open>while (std::getline(configFile, line))\<close> over the lines of the file.\<close>

fun config_loop ::
  "system \<Rightarrow> string list \<Rightarrow> 32 word \<times> string \<times> wrapper_state \<Rightarrow> 32 word \<times> string \<times> wrapper_state" where
  "config_loop sys [] st = st"
| "config_loop sys (line # rest) st = config_loop sys rest (config_line sys line st)"

text \<open>
  The block under \<open>// Load the configuration.\<close> (lines 133 to 181): it yields
  \<open>openXrRuntime\<close>, empty unless a \<open>runtime\<close> line set it.
\<close>

definition load_configuration :: "system \<Rightarrow> wrapper_state \<Rightarrow> string \<times> wrapper_state" where
  "load_configuration sys s =
     (case configFile sys of
        Some lines \<Rightarrow> snd (config_loop sys lines (0, [], s))
      | None \<Rightarrow> ([], Log Failed_to_open_file s))"

text \<open>The block under \<open>// Load the library for the real OpenXR runtime.\<close> (lines 184 to 193).\<close>

definition load_runtime :: "system \<Rightarrow> string \<Rightarrow> wrapper_state \<Rightarrow> wrapper_state" where
  "load_runtime sys openXrRuntime s =
     (if openXrRuntime \<noteq> [] then
        (let s1 = Log (Loading_runtime openXrRuntime) s;
             s2 = s1\<lparr>chainedRuntimeModule := LoadLibraryW sys openXrRuntime\<rparr>
         in case chainedRuntimeModule s2 of
              Some module \<Rightarrow>
                s2\<lparr>next_xrNegotiateLoaderRuntimeInterface :=
                      GetProcAddress sys module ''xrNegotiateLoaderRuntimeInterface''\<rparr>
            | None \<Rightarrow> Log (Failed_to_load_runtime openXrRuntime) s2)
      else s)"

definition initializeWrapper :: "system \<Rightarrow> wrapper_state \<Rightarrow> wrapper_state" where
  "initializeWrapper sys s =
     (case load_configuration sys s of
        (openXrRuntime, s1) \<Rightarrow> load_runtime sys openXrRuntime s1)"

section \<open>xrNegotiateLoaderRuntimeInterface\<close>

text \<open>
  The exported entry point. It returns the result code and the content left in
  \<open>*runtimeRequest\<close>, together with the globals, of which it may set
  \<open>next_xrGetInstanceProcAddr\<close>.
\<close>

definition xrNegotiateLoaderRuntimeInterface ::
  "('i, 'w) chained_code \<Rightarrow> wrapper_state \<Rightarrow> 'i \<Rightarrow> XrNegotiateRuntimeRequest \<Rightarrow> 'w
     \<Rightarrow> fault + ((XrResult \<times> XrNegotiateRuntimeRequest) \<times> wrapper_state \<times> 'w)" where
  "xrNegotiateLoaderRuntimeInterface rt s loaderInfo runtimeRequest w =
     (if chainedRuntimeModule s = None then
        Inr ((XR_ERROR_FILE_ACCESS_ERROR, runtimeRequest), s, w)
      else if next_xrNegotiateLoaderRuntimeInterface s = nullptr then Inl NullFunctionCall
      else
        (case negotiate_at rt (next_xrNegotiateLoaderRuntimeInterface s) loaderInfo runtimeRequest w of
           ((result, runtimeRequest'), w') \<Rightarrow>
             if XR_SUCCEEDED result then
               Inr ((result,
                     runtimeRequest'\<lparr>getInstanceProcAddr := wrapper_xrGetInstanceProcAddr\<rparr>),
                    s\<lparr>next_xrGetInstanceProcAddr := getInstanceProcAddr runtimeRequest'\<rparr>, w')
             else Inr ((result, runtimeRequest'), s, w')))"

section \<open>Specification-side definitions\<close>

text \<open>
  What the configuration loader is to report for one line, after the specification's words:
  a line without a separator, an unknown key and a line that raises a parsing error are
  logged with the line number; a \<open>maskExtension\<close> line is logged with its value; a
  \<open>runtime\<close> line that parses is not logged.
\<close>

definition line_report :: "system \<Rightarrow> 32 word \<Rightarrow> string \<Rightarrow> log_entry list" where
  "line_report sys n line =
     (if CHR ''='' \<notin> set line then [Improperly_formatted_option n]
      else
        (let key = takeWhile (\<lambda>c. c \<noteq> CHR ''='') line;
             val = tl (dropWhile (\<lambda>c. c \<noteq> CHR ''='') line)
         in if key = ''maskExtension'' then [Masking_extension val]
            else if key = ''runtime'' then
              (if path_append sys (dllHome sys) (val @ ''.dll'') = None then [Parsing_error n]
               else [])
            else [Unrecognized_option n key]))"

text \<open>The values of the \<open>maskExtension\<close> lines of a file, in file order.\<close>

definition mask_lines :: "string list \<Rightarrow> string list" where
  "mask_lines lines = map (drop 14) (filter (\<lambda>l. take 14 l = ''maskExtension='') lines)"

text \<open>
  The stable set difference by name of the specification: every record whose name is an
  entry of the suppressed list is dropped.
\<close>

definition without_suppressed :: "string list \<Rightarrow> buffer \<Rightarrow> buffer" where
  "without_suppressed suppressed recs = filter (\<lambda>p. extensionName p \<notin> set suppressed) recs"

section \<open>A sample chained runtime\<close>

text \<open>
  A runtime that follows the two-call convention over a fixed list of extensions, answers
  negotiation with the code \<open>r\<close> and its resolver at address 2, and resolves every name
  to address 3 with the code \<open>r\<close>. The outside state counts the calls made into it.
\<close>

definition ext :: "string \<Rightarrow> XrExtensionProperties" where
  "ext name = \<lparr>type = XR_TYPE_EXTENSION_PROPERTIES, next = 0, extensionName = name,
                extensionVersion = 1\<rparr>"

definition sample_enumerate ::
  "buffer \<Rightarrow> 32 word \<Rightarrow> buffer option \<Rightarrow> XrResult \<times> 32 word \<times> buffer option" where
  "sample_enumerate recs capacity properties =
     (if capacity = 0 then (XR_SUCCESS, of_nat (length recs), properties)
      else if unat capacity < length recs then
        (XR_ERROR_SIZE_INSUFFICIENT, of_nat (length recs), properties)
      else (XR_SUCCESS, of_nat (length recs),
            map_option (\<lambda>dst. recs @ drop (length recs) dst) properties))"

definition sample_runtime :: "XrResult \<Rightarrow> buffer \<Rightarrow> (unit, nat) chained_code" where
  "sample_runtime r recs =
     \<lparr>negotiate_at = (\<lambda>f info req w. ((r, req\<lparr>getInstanceProcAddr := foreign 2\<rparr>), Suc w)),
      getInstanceProcAddr_at = (\<lambda>f inst name fn w. ((r, foreign 3), Suc w)),
      enumerate_at = (\<lambda>f layer capacity count properties w.
                        (sample_enumerate recs capacity properties, Suc w))\<rparr>"

definition sample_request :: XrNegotiateRuntimeRequest where
  "sample_request =
     \<lparr>structType = 3, structVersion = 1, structSize = 40, runtimeInterfaceVersion = 0,
      runtimeApiVersion = 0, getInstanceProcAddr = nullptr\<rparr>"

text \<open>
  A system whose configuration file names a runtime: the module loads as handle 7 when
  \<open>loads\<close> holds, and exports the negotiation function at address 1 when \<open>exports\<close> holds.
\<close>

definition sample_system :: "string list option \<Rightarrow> bool \<Rightarrow> bool \<Rightarrow> system" where
  "sample_system config loads exports =
     \<lparr>dllHome = ''C:/w'',
      configFile = config,
      path_append = (\<lambda>dir name. if CHR ''?'' \<in> set name then None else Some (dir @ ''/'' @ name)),
      LoadLibraryW = (\<lambda>path. if loads then Some 7 else None),
      GetProcAddress = (\<lambda>module name. if exports then foreign 1 else nullptr)\<rparr>"

text \<open>
  The globals once negotiation and the resolver lookup have gone through: the module is
  loaded, the three chained pointers are set, and \<open>ms\<close> is the list to mask.
\<close>

definition sample_state :: "string list \<Rightarrow> wrapper_state" where
  "sample_state ms =
     \<lparr>chainedRuntimeModule = Some 7,
      next_xrNegotiateLoaderRuntimeInterface = foreign 1,
      next_xrGetInstanceProcAddr = foreign 2,
      next_xrEnumerateInstanceExtensionProperties = foreign 3,
      extensionsToMask = ms,
      logged = []\<rparr>"

section \<open>Properties of the masking loop\<close>

lemma find_if_le: "find_if P xs \<le> length xs"
  by (induction xs) auto

lemma find_if_end: "find_if P xs = length xs \<longleftrightarrow> (\<forall>x \<in> set xs. \<not> P x)"
proof (induction xs)
  case Nil
  show ?case by simp
next
  case (Cons x xs)
  show ?case using Cons.IH by auto
qed

lemma mask_one_Nil: "mask_one m [] = []"
  by (simp add: mask_one_def)

lemma mask_one_Cons:
  "mask_one m (x # xs) = (if extensionName x = m then xs else x # mask_one m xs)"
  by (simp add: mask_one_def erase_def Let_def)

lemma mask_one_absent:
  "m \<notin> extensionName ` set xs \<Longrightarrow> mask_one m xs = xs"
  by (induction xs) (auto simp: mask_one_Nil mask_one_Cons)

text \<open>One iteration removes the first record of that name and nothing else.\<close>

lemma mask_one_first:
  "mask_one m xs =
     takeWhile (\<lambda>p. extensionName p \<noteq> m) xs @ drop 1 (dropWhile (\<lambda>p. extensionName p \<noteq> m) xs)"
  by (induction xs) (auto simp: mask_one_Nil mask_one_Cons)

lemma filter_mask_one_same:
  "filter (\<lambda>p. extensionName p = m) (mask_one m xs) = drop 1 (filter (\<lambda>p. extensionName p = m) xs)"
  by (induction xs) (auto simp: mask_one_Nil mask_one_Cons)

lemma filter_mask_one_other:
  "(\<And>p. P p \<Longrightarrow> extensionName p \<noteq> m) \<Longrightarrow> filter P (mask_one m xs) = filter P xs"
  by (induction xs) (auto simp: mask_one_Nil mask_one_Cons)

text \<open>
  Among the records of one name, the loop drops as many from the front as the name has
  entries in the list to mask.
\<close>

lemma filter_mask_extensions_name:
  "filter (\<lambda>p. extensionName p = nm) (mask_extensions ms xs) =
     drop (count_list ms nm) (filter (\<lambda>p. extensionName p = nm) xs)"
proof (induction ms arbitrary: xs)
  case Nil
  show ?case by simp
next
  case (Cons m ms)
  show ?case
  proof (cases "m = nm")
    case True
    then show ?thesis by (simp add: Cons.IH filter_mask_one_same)
  next
    case False
    then have "filter (\<lambda>p. extensionName p = nm) (mask_one m xs) = filter (\<lambda>p. extensionName p = nm) xs"
      by (simp add: filter_mask_one_other)
    with False show ?thesis by (simp add: Cons.IH)
  qed
qed

lemma filter_mask_extensions_other:
  "(\<And>p. P p \<Longrightarrow> extensionName p \<notin> set ms) \<Longrightarrow>
     filter P (mask_extensions ms xs) = filter P xs"
proof (induction ms arbitrary: xs)
  case Nil
  show ?case by simp
next
  case (Cons m ms)
  have "filter P (mask_extensions ms (mask_one m xs)) = filter P (mask_one m xs)"
    by (rule Cons.IH) (use Cons.prems in auto)
  also have "\<dots> = filter P xs"
    by (rule filter_mask_one_other) (use Cons.prems in auto)
  finally show ?case by simp
qed

lemma filter_mask_extensions_unmasked:
  "filter (\<lambda>p. extensionName p \<notin> set ms) (mask_extensions ms xs) =
     filter (\<lambda>p. extensionName p \<notin> set ms) xs"
  by (rule filter_mask_extensions_other) simp

lemma subseq_mask_one: "subseq (mask_one m xs) xs"
  by (induction xs) (auto simp: mask_one_Nil mask_one_Cons)

lemma subseq_mask_extensions: "subseq (mask_extensions ms xs) xs"
proof (induction ms arbitrary: xs)
  case Nil
  show ?case by simp
next
  case (Cons m ms)
  have "subseq (mask_extensions ms (mask_one m xs)) (mask_one m xs)" by (rule Cons.IH)
  then have "subseq (mask_extensions ms (mask_one m xs)) xs"
    by (rule subseq_order.order_trans) (rule subseq_mask_one)
  then show ?case by simp
qed

lemma length_by_name:
  assumes "finite N"
  shows "length ys = (\<Sum>nm\<in>N. length (filter (\<lambda>p. f p = nm) ys)) + length (filter (\<lambda>p. f p \<notin> N) ys)"
  using assms
proof (induction N)
  case empty
  show ?case by simp
next
  case (insert a N)
  have "length (filter (\<lambda>p. f p \<notin> N) ys) =
          length (filter (\<lambda>p. f p = a) (filter (\<lambda>p. f p \<notin> N) ys)) +
          length (filter (\<lambda>p. \<not> f p = a) (filter (\<lambda>p. f p \<notin> N) ys))"
    by (simp only: sum_length_filter_compl)
  also have "filter (\<lambda>p. f p = a) (filter (\<lambda>p. f p \<notin> N) ys) = filter (\<lambda>p. f p = a) ys"
  proof -
    have "(\<lambda>p. f p \<notin> N \<and> f p = a) = (\<lambda>p. f p = a)"
      using insert.hyps(2) by auto
    then show ?thesis by simp
  qed
  also have "filter (\<lambda>p. \<not> f p = a) (filter (\<lambda>p. f p \<notin> N) ys) = filter (\<lambda>p. f p \<notin> insert a N) ys"
  proof -
    have "(\<lambda>p. f p \<notin> N \<and> f p \<noteq> a) = (\<lambda>p. f p \<notin> insert a N)"
      by auto
    then show ?thesis by simp
  qed
  finally have "length (filter (\<lambda>p. f p \<notin> N) ys) =
      length (filter (\<lambda>p. f p = a) ys) + length (filter (\<lambda>p. f p \<notin> insert a N) ys)" .
  with insert.IH show ?case
    unfolding sum.insert [OF insert.hyps] by linarith
qed

lemma count_list_map_filter:
  "count_list (map f ys) nm = length (filter (\<lambda>p. f p = nm) ys)"
  by (induction ys) auto

lemma length_mask_extensions:
  "length (mask_extensions ms xs) + 
     (\<Sum>nm\<in>set ms. min (count_list ms nm) (count_list (map extensionName xs) nm)) = length xs"
proof -
  let ?r = "mask_extensions ms xs"
  have "length xs = (\<Sum>nm\<in>set ms. length (filter (\<lambda>p. extensionName p = nm) xs)) +
                    length (filter (\<lambda>p. extensionName p \<notin> set ms) xs)"
    by (rule length_by_name) simp
  moreover have "length ?r = (\<Sum>nm\<in>set ms. length (filter (\<lambda>p. extensionName p = nm) ?r)) +
                    length (filter (\<lambda>p. extensionName p \<notin> set ms) ?r)"
    by (rule length_by_name) simp
  moreover have "(\<Sum>nm\<in>set ms. length (filter (\<lambda>p. extensionName p = nm) ?r)) +
        (\<Sum>nm\<in>set ms. min (count_list ms nm) (count_list (map extensionName xs) nm)) =
        (\<Sum>nm\<in>set ms. length (filter (\<lambda>p. extensionName p = nm) xs))"
    unfolding sum.distrib [symmetric]
    by (rule sum.cong) (auto simp: filter_mask_extensions_name count_list_map_filter)
  ultimately show ?thesis
    by (simp add: filter_mask_extensions_unmasked)
qed

lemma length_mask_extensions_le: "length (mask_extensions ms xs) \<le> length xs"
  using length_mask_extensions [of ms xs] by linarith

text \<open>
  The loop computes the set difference by name exactly when no name to mask occurs more
  often among the records than in the list to mask.
\<close>

lemma mask_extensions_is_filter_iff:
  "mask_extensions ms xs = filter (\<lambda>p. extensionName p \<notin> set ms) xs \<longleftrightarrow>
     (\<forall>nm \<in> set ms. count_list (map extensionName xs) nm \<le> count_list ms nm)"
  (is "?L \<longleftrightarrow> ?R")
proof
  assume L: ?L
  show ?R
  proof
    fix nm assume nm: "nm \<in> set ms"
    have "filter (\<lambda>p. extensionName p = nm) (mask_extensions ms xs) = []"
      unfolding L using nm by (auto simp: filter_empty_conv)
    then have "drop (count_list ms nm) (filter (\<lambda>p. extensionName p = nm) xs) = []"
      by (simp add: filter_mask_extensions_name)
    then show "count_list (map extensionName xs) nm \<le> count_list ms nm"
      by (simp add: count_list_map_filter)
  qed
next
  assume R: ?R
  let ?r = "mask_extensions ms xs"
  have "extensionName p \<notin> set ms" if "p \<in> set ?r" for p
  proof
    assume in_mask: "extensionName p \<in> set ms"
    have "p \<in> set (filter (\<lambda>q. extensionName q = extensionName p) ?r)"
      using that by simp
    moreover have "filter (\<lambda>q. extensionName q = extensionName p) ?r = []"
      using R in_mask by (simp add: filter_mask_extensions_name count_list_map_filter)
    ultimately show False by simp
  qed
  then have "filter (\<lambda>p. extensionName p \<notin> set ms) ?r = ?r"
    by (simp add: filter_id_conv)
  then show ?L by (simp add: filter_mask_extensions_unmasked)
qed

section \<open>The unqualified path of the enumeration\<close>

text \<open>
  When both chained calls succeed, the wrapper's answer is determined by the content
  \<open>recs\<close> the second call left in the scratch array.
\<close>

lemma xrEnumerate_unqualified:
  assumes "next_xrEnumerateInstanceExtensionProperties s \<noteq> nullptr"
    and "enumerate_at rt (next_xrEnumerateInstanceExtensionProperties s) None 0 cnt None w =
           ((r1, n, b1), w1)"
    and "XR_SUCCEEDED r1"
    and "enumerate_at rt (next_xrEnumerateInstanceExtensionProperties s) None n n
           (Some (replicate (unat n) blank_properties)) w1 = ((r2, n2, Some recs), w2)"
    and "XR_SUCCEEDED r2"
  shows "xrEnumerateInstanceExtensionProperties rt s None cap cnt props w =
           Inr ((if cap \<noteq> 0 \<and> cap < of_nat (length (mask_extensions (extensionsToMask s) recs))
                 then XR_ERROR_SIZE_INSUFFICIENT else r2,
                 of_nat (length (mask_extensions (extensionsToMask s) recs)),
                 map_option (\<lambda>dst. memcpy dst (mask_extensions (extensionsToMask s) recs)
                                (length (mask_extensions (extensionsToMask s) recs))) props),
                w2)"
  using assms
  by (cases props) (simp_all add: xrEnumerateInstanceExtensionProperties_def call_enumerate_def Let_def)

text \<open>The cast of the filtered size to 32 bits loses nothing.\<close>

lemma unat_filtered_count:
  assumes "length recs = unat (n :: 32 word)"
  shows "unat (of_nat (length (mask_extensions ms recs)) :: 32 word) = length (mask_extensions ms recs)"
proof -
  have "length (mask_extensions ms recs) \<le> unat n"
    using length_mask_extensions_le [of ms recs] assms by simp
  then show ?thesis by (rule le_unat_uoi)
qed

section \<open>Properties of the configuration loop\<close>

lemma string_find_None: "string_find c l = None \<longleftrightarrow> c \<notin> set l"
  by (induction l) auto

lemma string_find_Some:
  "string_find c l = Some k \<Longrightarrow>
     take k l = takeWhile (\<lambda>x. x \<noteq> c) l \<and> drop (k + 1) l = tl (dropWhile (\<lambda>x. x \<noteq> c) l)"
proof (induction l arbitrary: k)
  case Nil
  then show ?case by simp
next
  case (Cons x xs)
  show ?case
  proof (cases "x = c")
    case True
    with Cons.prems show ?thesis by simp
  next
    case False
    with Cons.prems obtain j where j: "string_find c xs = Some j" and k: "k = Suc j"
      by auto
    from Cons.IH [OF j] False k show ?thesis by simp
  qed
qed

text \<open>
  The key before the first separator is \<open>maskExtension\<close> exactly when the line starts with
  \<open>maskExtension=\<close>; the value is then the rest of the line.
\<close>

lemma mask_key_iff:
  "CHR ''='' \<in> set l \<and> takeWhile (\<lambda>x. x \<noteq> CHR ''='') l = ''maskExtension'' \<longleftrightarrow>
     take 14 l = ''maskExtension=''"
  (is "?A \<longleftrightarrow> ?B")
proof
  assume a: ?A
  have "l = takeWhile (\<lambda>x. x \<noteq> CHR ''='') l @ dropWhile (\<lambda>x. x \<noteq> CHR ''='') l"
    by simp
  moreover from a have "dropWhile (\<lambda>x. x \<noteq> CHR ''='') l \<noteq> []"
    by (simp add: dropWhile_eq_Nil_conv)
  then obtain rest where "dropWhile (\<lambda>x. x \<noteq> CHR ''='') l = CHR ''='' # rest"
    using hd_dropWhile [of "\<lambda>x. x \<noteq> CHR ''=''" l] by (cases "dropWhile (\<lambda>x. x \<noteq> CHR ''='') l") auto
  ultimately have "l = ''maskExtension'' @ CHR ''='' # rest"
    using a by simp
  then show ?B by simp
next
  assume b: ?B
  have "l = take 14 l @ drop 14 l" by simp
  with b have l: "l = ''maskExtension='' @ drop 14 l" by simp
  have "CHR ''='' \<in> set l" by (subst l) simp
  moreover have "takeWhile (\<lambda>x. x \<noteq> CHR ''='') l = ''maskExtension''" by (subst l) simp
  ultimately show ?A by simp
qed

lemma mask_value:
  assumes "take 14 l = ''maskExtension=''"
  shows "tl (dropWhile (\<lambda>x. x \<noteq> CHR ''='') l) = drop 14 l"
proof -
  have "l = take 14 l @ drop 14 l" by simp
  with assms have l: "l = ''maskExtension='' @ drop 14 l" by simp
  show ?thesis by (subst l) simp
qed

lemma mask_lines_append: "mask_lines (xs @ ys) = mask_lines xs @ mask_lines ys"
  by (simp add: mask_lines_def)

text \<open>One line: the counter advances, and the list and the log grow as specified.\<close>

lemma config_line_effect:
  "fst (config_line sys line (n, r, s)) = n + 1
   \<and> extensionsToMask (snd (snd (config_line sys line (n, r, s)))) =
       extensionsToMask s @ mask_lines [line]
   \<and> logged (snd (snd (config_line sys line (n, r, s)))) =
       logged s @ line_report sys (n + 1) line"
proof (cases "string_find (CHR ''='') line")
  case None
  then have no: "CHR ''='' \<notin> set line" by (simp add: string_find_None)
  then have "take 14 line \<noteq> ''maskExtension=''"
    using mask_key_iff [of line] by blast
  with None no show ?thesis
    by (simp add: config_line_def Log_def line_report_def mask_lines_def Let_def)
next
  case (Some k)
  then have yes: "CHR ''='' \<in> set line"
    using string_find_None [of "CHR ''=''" line] by auto
  note kv = string_find_Some [OF Some]
  show ?thesis
  proof (cases "takeWhile (\<lambda>x. x \<noteq> CHR ''='') line = ''maskExtension''")
    case True
    with yes have t: "take 14 line = ''maskExtension=''" using mask_key_iff [of line] by blast
    from Some kv True t yes show ?thesis
      by (simp add: config_line_def Log_def line_report_def mask_lines_def Let_def mask_value)
  next
    case False
    with yes have t: "take 14 line \<noteq> ''maskExtension=''" using mask_key_iff [of line] by blast
    from Some kv False t yes show ?thesis
      by (auto simp: config_line_def Log_def line_report_def mask_lines_def Let_def
           split: option.splits)
  qed
qed

lemma config_loop_effect:
  "fst (config_loop sys lines (of_nat k, r, s)) = of_nat (k + length lines)
   \<and> extensionsToMask (snd (snd (config_loop sys lines (of_nat k, r, s)))) =
       extensionsToMask s @ mask_lines lines
   \<and> logged (snd (snd (config_loop sys lines (of_nat k, r, s)))) =
       logged s @ concat (map (\<lambda>(i, l). line_report sys (of_nat i) l) (enumerate (Suc k) lines))"
proof (induction lines arbitrary: k r s)
  case Nil
  show ?case by (simp add: mask_lines_def)
next
  case (Cons line rest)
  obtain n' r' s' where step: "config_line sys line (of_nat k, r, s) = (n', r', s')"
    by (cases "config_line sys line (of_nat k, r, s)") auto
  from config_line_effect [of sys line "of_nat k" r s] step
  have n': "n' = of_nat (Suc k)"
    and m: "extensionsToMask s' = extensionsToMask s @ mask_lines [line]"
    and g: "logged s' = logged s @ line_report sys (of_nat (Suc k)) line"
    by (simp_all add: add.commute)
  from Cons.IH [of "Suc k" r' s'] step n' m g show ?case
    using mask_lines_append [of "[line]" rest] by simp
qed

section \<open>The claims\<close>

text \<open>
  C1, as amended. With a null layer name and both chained calls successful, the count and
  the records the wrapper hands back are those of the chained list without every record
  whose name is an entry of the list to mask, in the chained order, provided that no name
  to mask occurs more often in the chained list than in the list to mask.
\<close>

theorem enumerate_filtered_list:
  assumes "next_xrEnumerateInstanceExtensionProperties s \<noteq> nullptr"
    and "enumerate_at rt (next_xrEnumerateInstanceExtensionProperties s) None 0 cnt None w =
           ((r1, n, b1), w1)"
    and "XR_SUCCEEDED r1"
    and "enumerate_at rt (next_xrEnumerateInstanceExtensionProperties s) None n n
           (Some (replicate (unat n) blank_properties)) w1 = ((r2, n2, Some recs), w2)"
    and "XR_SUCCEEDED r2"
    and "\<forall>nm \<in> set (extensionsToMask s).
           count_list (map extensionName recs) nm \<le> count_list (extensionsToMask s) nm"
  shows "\<exists>r. xrEnumerateInstanceExtensionProperties rt s None cap cnt props w =
           Inr ((r, of_nat (length (without_suppressed (extensionsToMask s) recs)),
                 (case props of
                    None \<Rightarrow> None
                  | Some dst \<Rightarrow>
                      Some (without_suppressed (extensionsToMask s) recs @
                            drop (length (without_suppressed (extensionsToMask s) recs)) dst))),
                w2)"
proof -
  have "mask_extensions (extensionsToMask s) recs = without_suppressed (extensionsToMask s) recs"
    unfolding without_suppressed_def using assms(6) by (simp only: mask_extensions_is_filter_iff)
  then show ?thesis
    using xrEnumerate_unqualified [OF assms(1-5), of cap props]
    by (cases props) (simp_all add: memcpy_def)
qed

theorem enumerate_filtered_list_witness:
  "next_xrEnumerateInstanceExtensionProperties (sample_state [''XR_B'', ''XR_D'']) \<noteq> nullptr
   \<and> enumerate_at (sample_runtime 0 [ext ''XR_A'', ext ''XR_B'', ext ''XR_C'', ext ''XR_D''])
         (next_xrEnumerateInstanceExtensionProperties (sample_state [''XR_B'', ''XR_D'']))
         None 0 0 None 0 = ((0, 4, None), 1)
   \<and> XR_SUCCEEDED 0
   \<and> enumerate_at (sample_runtime 0 [ext ''XR_A'', ext ''XR_B'', ext ''XR_C'', ext ''XR_D''])
         (next_xrEnumerateInstanceExtensionProperties (sample_state [''XR_B'', ''XR_D'']))
         None 4 4 (Some (replicate (unat (4 :: 32 word)) blank_properties)) 1 =
       ((0, 4, Some [ext ''XR_A'', ext ''XR_B'', ext ''XR_C'', ext ''XR_D'']), 2)
   \<and> extensionsToMask (sample_state [''XR_B'', ''XR_D'']) = [''XR_B'', ''XR_D'']
   \<and> count_list (map extensionName [ext ''XR_A'', ext ''XR_B'', ext ''XR_C'', ext ''XR_D'']) ''XR_B''
       \<le> count_list [''XR_B'', ''XR_D''] ''XR_B''
   \<and> count_list (map extensionName [ext ''XR_A'', ext ''XR_B'', ext ''XR_C'', ext ''XR_D'']) ''XR_D''
       \<le> count_list [''XR_B'', ''XR_D''] ''XR_D''
   \<and> (\<exists>r. xrEnumerateInstanceExtensionProperties
              (sample_runtime 0 [ext ''XR_A'', ext ''XR_B'', ext ''XR_C'', ext ''XR_D''])
              (sample_state [''XR_B'', ''XR_D'']) None 2 0
              (Some [blank_properties, blank_properties]) 0 =
            Inr ((r, 2, Some [ext ''XR_A'', ext ''XR_C'']), 2))"
proof -
  let ?L = "[ext ''XR_A'', ext ''XR_B'', ext ''XR_C'', ext ''XR_D'']"
  let ?s = "sample_state [''XR_B'', ''XR_D'']"
  have h1: "next_xrEnumerateInstanceExtensionProperties ?s \<noteq> nullptr"
    by code_simp
  have h2: "enumerate_at (sample_runtime 0 ?L) (next_xrEnumerateInstanceExtensionProperties ?s)
              None 0 0 None 0 = ((0, 4, None), 1)"
    by code_simp
  have h3: "XR_SUCCEEDED 0"
    by code_simp
  have h4: "enumerate_at (sample_runtime 0 ?L) (next_xrEnumerateInstanceExtensionProperties ?s)
              None 4 4 (Some (replicate (unat (4 :: 32 word)) blank_properties)) 1 =
            ((0, 4, Some ?L), 2)"
    by code_simp
  have h5: "\<forall>nm \<in> set (extensionsToMask ?s).
              count_list (map extensionName ?L) nm \<le> count_list (extensionsToMask ?s) nm"
    by code_simp
  have e: "without_suppressed (extensionsToMask ?s) ?L = [ext ''XR_A'', ext ''XR_C'']"
    by code_simp
  have "\<exists>r. xrEnumerateInstanceExtensionProperties (sample_runtime 0 ?L) ?s None 2 0
              (Some [blank_properties, blank_properties]) 0 =
            Inr ((r, 2, Some [ext ''XR_A'', ext ''XR_C'']), 2)"
    using enumerate_filtered_list [OF h1 h2 h3 h4 h3 h5, of 2 "Some [blank_properties, blank_properties]"]
    unfolding e by simp
  moreover have "extensionsToMask ?s = [''XR_B'', ''XR_D'']"
    by code_simp
  moreover have "count_list (map extensionName ?L) ''XR_B'' \<le> count_list [''XR_B'', ''XR_D''] ''XR_B''"
    by code_simp
  moreover have "count_list (map extensionName ?L) ''XR_D'' \<le> count_list [''XR_B'', ''XR_D''] ''XR_D''"
    by code_simp
  ultimately show ?thesis using h1 h2 h3 h4 by blast
qed

text \<open>
  The chained list holds two records of a name that is masked once: one of them is handed
  back, while the set difference by name is empty.
\<close>

theorem enumerate_duplicate_name_survives:
  "xrEnumerateInstanceExtensionProperties (sample_runtime 0 [ext ''XR_A'', ext ''XR_A''])
       (sample_state [''XR_A'']) None 2 0 (Some [blank_properties, blank_properties]) 0 =
     Inr ((XR_SUCCESS, 1, Some [ext ''XR_A'', blank_properties]), 2)
   \<and> without_suppressed [''XR_A''] [ext ''XR_A'', ext ''XR_A''] = []"
  by code_simp

text \<open>
  C2, as amended. With a null layer name, capacity 0 and both chained calls successful, the
  wrapper returns the successful code of the second chained call, which is not
  \<open>XR_ERROR_SIZE_INSUFFICIENT\<close>, and the filtered count, exactly. A null output pointer
  stays null. A non-null output pointer receives the filtered records all the same: the
  copy depends on the pointer, not on the capacity.
\<close>

theorem discovery_call:
  assumes "next_xrEnumerateInstanceExtensionProperties s \<noteq> nullptr"
    and "enumerate_at rt (next_xrEnumerateInstanceExtensionProperties s) None 0 cnt None w =
           ((r1, n, b1), w1)"
    and "XR_SUCCEEDED r1"
    and "enumerate_at rt (next_xrEnumerateInstanceExtensionProperties s) None n n
           (Some (replicate (unat n) blank_properties)) w1 = ((r2, n2, Some recs), w2)"
    and "XR_SUCCEEDED r2"
    and "length recs = unat n"
  shows "xrEnumerateInstanceExtensionProperties rt s None 0 cnt props w =
           Inr ((r2, of_nat (length (mask_extensions (extensionsToMask s) recs)),
                 (case props of
                    None \<Rightarrow> None
                  | Some dst \<Rightarrow>
                      Some (mask_extensions (extensionsToMask s) recs @
                            drop (length (mask_extensions (extensionsToMask s) recs)) dst))),
                w2)
         \<and> XR_SUCCEEDED r2 \<and> r2 \<noteq> XR_ERROR_SIZE_INSUFFICIENT
         \<and> unat (of_nat (length (mask_extensions (extensionsToMask s) recs)) :: 32 word) =
             length (mask_extensions (extensionsToMask s) recs)"
proof -
  have "r2 \<noteq> XR_ERROR_SIZE_INSUFFICIENT"
    using assms(5) by (auto simp: XR_SUCCEEDED_def XR_ERROR_SIZE_INSUFFICIENT_def)
  moreover have "xrEnumerateInstanceExtensionProperties rt s None 0 cnt props w =
           Inr ((r2, of_nat (length (mask_extensions (extensionsToMask s) recs)),
                 (case props of
                    None \<Rightarrow> None
                  | Some dst \<Rightarrow>
                      Some (mask_extensions (extensionsToMask s) recs @
                            drop (length (mask_extensions (extensionsToMask s) recs)) dst))),
                w2)"
    using xrEnumerate_unqualified [OF assms(1-5), of 0 props]
    by (cases props) (simp_all add: memcpy_def)
  ultimately show ?thesis
    using assms(5) unat_filtered_count [OF assms(6)] by simp
qed

theorem discovery_call_witness:
  "next_xrEnumerateInstanceExtensionProperties (sample_state [''XR_B'']) \<noteq> nullptr
   \<and> enumerate_at (sample_runtime 0 [ext ''XR_A'', ext ''XR_B'', ext ''XR_C''])
         (next_xrEnumerateInstanceExtensionProperties (sample_state [''XR_B'']))
         None 0 0 None 0 = ((0, 3, None), 1)
   \<and> XR_SUCCEEDED 0
   \<and> enumerate_at (sample_runtime 0 [ext ''XR_A'', ext ''XR_B'', ext ''XR_C''])
         (next_xrEnumerateInstanceExtensionProperties (sample_state [''XR_B'']))
         None 3 3 (Some (replicate (unat (3 :: 32 word)) blank_properties)) 1 =
       ((0, 3, Some [ext ''XR_A'', ext ''XR_B'', ext ''XR_C'']), 2)
   \<and> length [ext ''XR_A'', ext ''XR_B'', ext ''XR_C''] = unat (3 :: 32 word)
   \<and> xrEnumerateInstanceExtensionProperties (sample_runtime 0 [ext ''XR_A'', ext ''XR_B'', ext ''XR_C''])
         (sample_state [''XR_B'']) None 0 0 None 0 =
       Inr ((0, 2, None), 2)
   \<and> unat (2 :: 32 word) = 2"
proof -
  let ?L = "[ext ''XR_A'', ext ''XR_B'', ext ''XR_C'']"
  let ?s = "sample_state [''XR_B'']"
  have h1: "next_xrEnumerateInstanceExtensionProperties ?s \<noteq> nullptr"
    by code_simp
  have h2: "enumerate_at (sample_runtime 0 ?L) (next_xrEnumerateInstanceExtensionProperties ?s)
              None 0 0 None 0 = ((0, 3, None), 1)"
    by code_simp
  have h3: "XR_SUCCEEDED 0"
    by code_simp
  have h4: "enumerate_at (sample_runtime 0 ?L) (next_xrEnumerateInstanceExtensionProperties ?s)
              None 3 3 (Some (replicate (unat (3 :: 32 word)) blank_properties)) 1 =
            ((0, 3, Some ?L), 2)"
    by code_simp
  have h5: "length ?L = unat (3 :: 32 word)"
    by code_simp
  have e: "mask_extensions (extensionsToMask ?s) ?L = [ext ''XR_A'', ext ''XR_C'']"
    by code_simp
  have "xrEnumerateInstanceExtensionProperties (sample_runtime 0 ?L) ?s None 0 0 None 0 =
          Inr ((0, 2, None), 2) \<and> unat (2 :: 32 word) = 2"
    using discovery_call [OF h1 h2 h3 h4 h3 h5, of None] unfolding e by simp
  with h1 h2 h3 h4 h5 show ?thesis by blast
qed

text \<open>
  With capacity 0 and a non-null output pointer the caller's array is overwritten.
\<close>

theorem discovery_call_copies_into_buffer:
  "xrEnumerateInstanceExtensionProperties (sample_runtime 0 [ext ''XR_A''])
       (sample_state []) None 0 0 (Some [blank_properties]) 0 =
     Inr ((XR_SUCCESS, 1, Some [ext ''XR_A'']), 2)
   \<and> [ext ''XR_A''] \<noteq> [blank_properties]"
  by code_simp

text \<open>
  C3. With a null layer name and both chained calls successful, a capacity that is not 0
  and is smaller than the filtered count yields \<open>XR_ERROR_SIZE_INSUFFICIENT\<close>, and the
  count output is the filtered count, exactly.
\<close>

theorem capacity_too_small:
  assumes "next_xrEnumerateInstanceExtensionProperties s \<noteq> nullptr"
    and "enumerate_at rt (next_xrEnumerateInstanceExtensionProperties s) None 0 cnt None w =
           ((r1, n, b1), w1)"
    and "XR_SUCCEEDED r1"
    and "enumerate_at rt (next_xrEnumerateInstanceExtensionProperties s) None n n
           (Some (replicate (unat n) blank_properties)) w1 = ((r2, n2, Some recs), w2)"
    and "XR_SUCCEEDED r2"
    and "length recs = unat n"
    and "cap \<noteq> 0"
    and "unat cap < length (mask_extensions (extensionsToMask s) recs)"
  shows "\<exists>props'. xrEnumerateInstanceExtensionProperties rt s None cap cnt props w =
           Inr ((XR_ERROR_SIZE_INSUFFICIENT,
                 of_nat (length (mask_extensions (extensionsToMask s) recs)), props'), w2)
         \<and> unat (of_nat (length (mask_extensions (extensionsToMask s) recs)) :: 32 word) =
             length (mask_extensions (extensionsToMask s) recs)"
proof -
  have u: "unat (of_nat (length (mask_extensions (extensionsToMask s) recs)) :: 32 word) =
             length (mask_extensions (extensionsToMask s) recs)"
    by (rule unat_filtered_count [OF assms(6)])
  then have "cap < of_nat (length (mask_extensions (extensionsToMask s) recs))"
    using assms(8) by (simp add: word_less_nat_alt)
  then show ?thesis
    using xrEnumerate_unqualified [OF assms(1-5), of cap props] assms(7) u by simp
qed

theorem capacity_too_small_witness:
  "next_xrEnumerateInstanceExtensionProperties (sample_state [''XR_B'']) \<noteq> nullptr
   \<and> enumerate_at (sample_runtime 0 [ext ''XR_A'', ext ''XR_B'', ext ''XR_C''])
         (next_xrEnumerateInstanceExtensionProperties (sample_state [''XR_B'']))
         None 0 0 None 0 = ((0, 3, None), 1)
   \<and> XR_SUCCEEDED 0
   \<and> enumerate_at (sample_runtime 0 [ext ''XR_A'', ext ''XR_B'', ext ''XR_C''])
         (next_xrEnumerateInstanceExtensionProperties (sample_state [''XR_B'']))
         None 3 3 (Some (replicate (unat (3 :: 32 word)) blank_properties)) 1 =
       ((0, 3, Some [ext ''XR_A'', ext ''XR_B'', ext ''XR_C'']), 2)
   \<and> length [ext ''XR_A'', ext ''XR_B'', ext ''XR_C''] = unat (3 :: 32 word)
   \<and> (1 :: 32 word) \<noteq> 0
   \<and> unat (1 :: 32 word) < length (mask_extensions (extensionsToMask (sample_state [''XR_B''])) [ext ''XR_A'', ext ''XR_B'', ext ''XR_C''])
   \<and> (\<exists>props'. xrEnumerateInstanceExtensionProperties (sample_runtime 0 [ext ''XR_A'', ext ''XR_B'', ext ''XR_C''])
         (sample_state [''XR_B'']) None 1 0 None 0 =
       Inr ((XR_ERROR_SIZE_INSUFFICIENT, 2, props'), 2))"
proof -
  let ?L = "[ext ''XR_A'', ext ''XR_B'', ext ''XR_C'']"
  let ?s = "sample_state [''XR_B'']"
  have h1: "next_xrEnumerateInstanceExtensionProperties ?s \<noteq> nullptr"
    by code_simp
  have h2: "enumerate_at (sample_runtime 0 ?L) (next_xrEnumerateInstanceExtensionProperties ?s)
              None 0 0 None 0 = ((0, 3, None), 1)"
    by code_simp
  have h3: "XR_SUCCEEDED 0"
    by code_simp
  have h4: "enumerate_at (sample_runtime 0 ?L) (next_xrEnumerateInstanceExtensionProperties ?s)
              None 3 3 (Some (replicate (unat (3 :: 32 word)) blank_properties)) 1 =
            ((0, 3, Some ?L), 2)"
    by code_simp
  have h5: "length ?L = unat (3 :: 32 word)"
    by code_simp
  have h6: "(1 :: 32 word) \<noteq> 0"
    by simp
  have h7: "unat (1 :: 32 word) < length (mask_extensions (extensionsToMask ?s) ?L)"
    by code_simp
  have e: "length (mask_extensions (extensionsToMask ?s) ?L) = 2"
    by code_simp
  have "\<exists>props'. xrEnumerateInstanceExtensionProperties (sample_runtime 0 ?L) ?s None 1 0 None 0 =
          Inr ((XR_ERROR_SIZE_INSUFFICIENT, 2, props'), 2)"
    using capacity_too_small [OF h1 h2 h3 h4 h3 h5 h6 h7, of None] unfolding e by auto
  with h1 h2 h3 h4 h5 h6 h7 show ?thesis by blast
qed

text \<open>
  C4. With a layer name the wrapper makes one chained call, with the caller's own layer
  name, capacity, count and output array, and returns its code, count and array content
  as they are.
\<close>

theorem qualified_passthrough:
  assumes "next_xrEnumerateInstanceExtensionProperties s \<noteq> nullptr"
  shows "xrEnumerateInstanceExtensionProperties rt s (Some layerName) cap cnt props w =
           Inr (enumerate_at rt (next_xrEnumerateInstanceExtensionProperties s)
                  (Some layerName) cap cnt props w)"
  using assms by (simp add: xrEnumerateInstanceExtensionProperties_def call_enumerate_def)

theorem qualified_passthrough_witness:
  "next_xrEnumerateInstanceExtensionProperties (sample_state [''XR_A'']) \<noteq> nullptr
   \<and> xrEnumerateInstanceExtensionProperties (sample_runtime 0 [ext ''XR_A'', ext ''XR_B''])
         (sample_state [''XR_A'']) (Some ''XR_APILAYER_x'') 2 0
         (Some [blank_properties, blank_properties]) 0 =
       Inr ((0, 2, Some [ext ''XR_A'', ext ''XR_B'']), 1)"
proof -
  have h1: "next_xrEnumerateInstanceExtensionProperties (sample_state [''XR_A'']) \<noteq> nullptr"
    by code_simp
  have e: "enumerate_at (sample_runtime 0 [ext ''XR_A'', ext ''XR_B''])
             (next_xrEnumerateInstanceExtensionProperties (sample_state [''XR_A'']))
             (Some ''XR_APILAYER_x'') 2 0 (Some [blank_properties, blank_properties]) 0 =
           ((0, 2, Some [ext ''XR_A'', ext ''XR_B'']), 1)"
    by code_simp
  show ?thesis
    using h1 qualified_passthrough [OF h1, of "sample_runtime 0 [ext ''XR_A'', ext ''XR_B'']"
        "''XR_APILAYER_x''" 2 0 "Some [blank_properties, blank_properties]" 0]
    unfolding e by simp
qed

text \<open>
  C5. When no chained module is loaded, negotiation returns \<open>XR_ERROR_FILE_ACCESS_ERROR\<close>
  and leaves the request, the globals and everything outside the wrapper as they were,
  whatever the chained code would do. Without a configuration file initialization ends in
  that state, with nothing to mask.
\<close>

theorem negotiate_without_module:
  "(chainedRuntimeModule s = None \<longrightarrow>
      xrNegotiateLoaderRuntimeInterface rt s loaderInfo runtimeRequest w =
        Inr ((XR_ERROR_FILE_ACCESS_ERROR, runtimeRequest), s, w))
   \<and> (configFile sys = None \<longrightarrow>
        chainedRuntimeModule (initializeWrapper sys initial_state) = None
        \<and> extensionsToMask (initializeWrapper sys initial_state) = []
        \<and> xrNegotiateLoaderRuntimeInterface rt (initializeWrapper sys initial_state)
             loaderInfo runtimeRequest w =
           Inr ((XR_ERROR_FILE_ACCESS_ERROR, runtimeRequest),
                initializeWrapper sys initial_state, w))"
  by (simp add: xrNegotiateLoaderRuntimeInterface_def initializeWrapper_def
      load_configuration_def load_runtime_def Log_def initial_state_def)

theorem negotiate_without_module_witness:
  "chainedRuntimeModule initial_state = None
   \<and> xrNegotiateLoaderRuntimeInterface (sample_runtime 0 []) initial_state () sample_request 0 =
       Inr ((- 32, sample_request), initial_state, 0)
   \<and> configFile (sample_system None True True) = None
   \<and> chainedRuntimeModule (initializeWrapper (sample_system None True True) initial_state) = None
   \<and> xrNegotiateLoaderRuntimeInterface (sample_runtime 0 [])
         (initializeWrapper (sample_system None True True) initial_state) () sample_request 0 =
       Inr ((- 32, sample_request), initializeWrapper (sample_system None True True) initial_state, 0)"
proof -
  have h1: "chainedRuntimeModule initial_state = None"
    by code_simp
  have h2: "configFile (sample_system None True True) = None"
    by code_simp
  show ?thesis
    using h1 h2
      negotiate_without_module [of initial_state "sample_runtime 0 []" "()" sample_request 0
        "sample_system None True True"]
    by (simp add: XR_ERROR_FILE_ACCESS_ERROR_def)
qed

text \<open>
  C6 fails on the code. The module loads but does not export the negotiation function:
  the module handle is set, the negotiation pointer is null, and negotiation calls
  through it.
\<close>

theorem unresolved_symbol_leaves_module_set:
  "chainedRuntimeModule
     (initializeWrapper (sample_system (Some [''runtime=real'']) True False) initial_state) = Some 7
   \<and> next_xrNegotiateLoaderRuntimeInterface
       (initializeWrapper (sample_system (Some [''runtime=real'']) True False) initial_state) = nullptr
   \<and> xrNegotiateLoaderRuntimeInterface (sample_runtime 0 [])
       (initializeWrapper (sample_system (Some [''runtime=real'']) True False) initial_state)
       () sample_request 0 = Inl NullFunctionCall"
  by code_simp

text \<open>
  C7. With the module loaded and its negotiation function resolved, a successful chained
  negotiation has its resolver stored and replaced by the wrapper's in the response; a
  failed one is returned as it is, response included, and nothing is stored.
\<close>

theorem negotiate_with_module:
  assumes "chainedRuntimeModule s \<noteq> None"
    and "next_xrNegotiateLoaderRuntimeInterface s \<noteq> nullptr"
    and "negotiate_at rt (next_xrNegotiateLoaderRuntimeInterface s) loaderInfo runtimeRequest w =
           ((r, runtimeRequest'), w')"
  shows "(XR_SUCCEEDED r \<longrightarrow>
            xrNegotiateLoaderRuntimeInterface rt s loaderInfo runtimeRequest w =
              Inr ((r, runtimeRequest'\<lparr>getInstanceProcAddr := wrapper_xrGetInstanceProcAddr\<rparr>),
                   s\<lparr>next_xrGetInstanceProcAddr := getInstanceProcAddr runtimeRequest'\<rparr>, w'))
         \<and> (\<not> XR_SUCCEEDED r \<longrightarrow>
              xrNegotiateLoaderRuntimeInterface rt s loaderInfo runtimeRequest w =
                Inr ((r, runtimeRequest'), s, w'))"
  using assms by (auto simp: xrNegotiateLoaderRuntimeInterface_def)

theorem negotiate_with_module_witness:
  "chainedRuntimeModule (sample_state []) \<noteq> None
   \<and> next_xrNegotiateLoaderRuntimeInterface (sample_state []) \<noteq> nullptr
   \<and> negotiate_at (sample_runtime 0 []) (next_xrNegotiateLoaderRuntimeInterface (sample_state []))
         () sample_request 0 = ((0, sample_request\<lparr>getInstanceProcAddr := foreign 2\<rparr>), 1)
   \<and> XR_SUCCEEDED 0
   \<and> xrNegotiateLoaderRuntimeInterface (sample_runtime 0 []) (sample_state []) () sample_request 0 =
       Inr ((0, sample_request\<lparr>getInstanceProcAddr := wrapper_xrGetInstanceProcAddr\<rparr>),
            (sample_state [])\<lparr>next_xrGetInstanceProcAddr := foreign 2\<rparr>, 1)
   \<and> negotiate_at (sample_runtime (- 1) []) (next_xrNegotiateLoaderRuntimeInterface (sample_state []))
         () sample_request 0 = ((- 1, sample_request\<lparr>getInstanceProcAddr := foreign 2\<rparr>), 1)
   \<and> \<not> XR_SUCCEEDED (- 1)
   \<and> xrNegotiateLoaderRuntimeInterface (sample_runtime (- 1) []) (sample_state []) () sample_request 0 =
       Inr ((- 1, sample_request\<lparr>getInstanceProcAddr := foreign 2\<rparr>), sample_state [], 1)"
proof -
  have h1: "chainedRuntimeModule (sample_state []) \<noteq> None"
    by code_simp
  have h2: "next_xrNegotiateLoaderRuntimeInterface (sample_state []) \<noteq> nullptr"
    by code_simp
  have h3: "negotiate_at (sample_runtime 0 []) (next_xrNegotiateLoaderRuntimeInterface (sample_state []))
              () sample_request 0 = ((0, sample_request\<lparr>getInstanceProcAddr := foreign 2\<rparr>), 1)"
    by code_simp
  have h4: "negotiate_at (sample_runtime (- 1) []) (next_xrNegotiateLoaderRuntimeInterface (sample_state []))
              () sample_request 0 = ((- 1, sample_request\<lparr>getInstanceProcAddr := foreign 2\<rparr>), 1)"
    by code_simp
  have s1: "XR_SUCCEEDED 0" and s2: "\<not> XR_SUCCEEDED (- 1)"
    by (simp_all add: XR_SUCCEEDED_def)
  show ?thesis
    using h1 h2 h3 h4 s1 s2 negotiate_with_module [OF h1 h2 h3] negotiate_with_module [OF h1 h2 h4]
    by simp
qed

text \<open>
  C8. The resolver forwards the lookup. A failed lookup is returned as it is. A
  successful lookup of \<open>xrEnumerateInstanceExtensionProperties\<close> has its pointer stored
  and replaced by the wrapper's function, with \<open>XR_SUCCESS\<close>. Every other name gets the
  chained code and pointer.
\<close>

theorem resolver_interceptor:
  assumes "next_xrGetInstanceProcAddr s \<noteq> nullptr"
    and "getInstanceProcAddr_at rt (next_xrGetInstanceProcAddr s) instance name function w =
           ((r, function'), w')"
  shows "(\<not> XR_SUCCEEDED r \<longrightarrow>
            xrGetInstanceProcAddr rt s instance name function w = Inr ((r, function'), s, w'))
         \<and> (XR_SUCCEEDED r \<and> name = ''xrEnumerateInstanceExtensionProperties'' \<longrightarrow>
              xrGetInstanceProcAddr rt s instance name function w =
                Inr ((XR_SUCCESS, wrapper_xrEnumerateInstanceExtensionProperties),
                     s\<lparr>next_xrEnumerateInstanceExtensionProperties := function'\<rparr>, w'))
         \<and> (name \<noteq> ''xrEnumerateInstanceExtensionProperties'' \<longrightarrow>
              xrGetInstanceProcAddr rt s instance name function w = Inr ((r, function'), s, w'))"
  using assms by (auto simp: xrGetInstanceProcAddr_def)

theorem resolver_interceptor_witness:
  "next_xrGetInstanceProcAddr (sample_state []) \<noteq> nullptr
   \<and> getInstanceProcAddr_at (sample_runtime 0 []) (next_xrGetInstanceProcAddr (sample_state []))
         5 ''xrEnumerateInstanceExtensionProperties'' nullptr 0 = ((0, foreign 3), 1)
   \<and> XR_SUCCEEDED 0
   \<and> xrGetInstanceProcAddr (sample_runtime 0 []) (sample_state []) 5
         ''xrEnumerateInstanceExtensionProperties'' nullptr 0 =
       Inr ((XR_SUCCESS, wrapper_xrEnumerateInstanceExtensionProperties),
            (sample_state [])\<lparr>next_xrEnumerateInstanceExtensionProperties := foreign 3\<rparr>, 1)
   \<and> getInstanceProcAddr_at (sample_runtime 0 []) (next_xrGetInstanceProcAddr (sample_state []))
         5 ''xrCreateInstance'' nullptr 0 = ((0, foreign 3), 1)
   \<and> ''xrCreateInstance'' \<noteq> ''xrEnumerateInstanceExtensionProperties''
   \<and> xrGetInstanceProcAddr (sample_runtime 0 []) (sample_state []) 5 ''xrCreateInstance'' nullptr 0 =
       Inr ((0, foreign 3), sample_state [], 1)
   \<and> getInstanceProcAddr_at (sample_runtime (- 12) []) (next_xrGetInstanceProcAddr (sample_state []))
         5 ''xrEnumerateInstanceExtensionProperties'' nullptr 0 = ((- 12, foreign 3), 1)
   \<and> \<not> XR_SUCCEEDED (- 12)
   \<and> xrGetInstanceProcAddr (sample_runtime (- 12) []) (sample_state []) 5
         ''xrEnumerateInstanceExtensionProperties'' nullptr 0 =
       Inr ((- 12, foreign 3), sample_state [], 1)"
proof -
  have h1: "next_xrGetInstanceProcAddr (sample_state []) \<noteq> nullptr"
    by code_simp
  have h2: "getInstanceProcAddr_at (sample_runtime 0 []) (next_xrGetInstanceProcAddr (sample_state []))
         5 ''xrEnumerateInstanceExtensionProperties'' nullptr 0 = ((0, foreign 3), 1)"
    by code_simp
  have h3: "getInstanceProcAddr_at (sample_runtime 0 []) (next_xrGetInstanceProcAddr (sample_state []))
         5 ''xrCreateInstance'' nullptr 0 = ((0, foreign 3), 1)"
    by code_simp
  have h4: "getInstanceProcAddr_at (sample_runtime (- 12) []) (next_xrGetInstanceProcAddr (sample_state []))
         5 ''xrEnumerateInstanceExtensionProperties'' nullptr 0 = ((- 12, foreign 3), 1)"
    by code_simp
  have s1: "XR_SUCCEEDED 0" and s2: "\<not> XR_SUCCEEDED (- 12)"
    by (simp_all add: XR_SUCCEEDED_def)
  have n: "''xrCreateInstance'' \<noteq> ''xrEnumerateInstanceExtensionProperties''"
    by simp
  show ?thesis
    using h1 h2 h3 h4 s1 s2 n resolver_interceptor [OF h1 h2] resolver_interceptor [OF h1 h3]
      resolver_interceptor [OF h1 h4]
    by simp
qed

text \<open>
  C9. For every configuration file that opens, the list to mask grows by the values of the
  lines that start with \<open>maskExtension=\<close>, one entry per line, in file order, duplicates
  kept. Every line is reported on its own with its line number: no separator, unknown key,
  or an error raised while parsing; the lines after it are processed all the same.
\<close>

theorem configuration_lines:
  assumes "configFile sys = Some lines"
  shows "extensionsToMask (initializeWrapper sys s) = extensionsToMask s @ mask_lines lines
         \<and> (\<exists>later. logged (initializeWrapper sys s) =
               logged s @
               concat (map (\<lambda>(i, l). line_report sys (of_nat i) l) (enumerate 1 lines)) @
               later)"
proof -
  let ?c = "config_loop sys lines (0, [], s)"
  have c: "load_configuration sys s = snd ?c"
    using assms by (simp add: load_configuration_def)
  from config_loop_effect [of sys lines 0 "[]" s]
  have m: "extensionsToMask (snd (snd ?c)) = extensionsToMask s @ mask_lines lines"
    and g: "logged (snd (snd ?c)) =
              logged s @ concat (map (\<lambda>(i, l). line_report sys (of_nat i) l) (enumerate 1 lines))"
    by simp_all
  have i: "initializeWrapper sys s = load_runtime sys (fst (snd ?c)) (snd (snd ?c))"
    by (simp add: initializeWrapper_def c split: prod.splits)
  have "extensionsToMask (load_runtime sys p t) = extensionsToMask t" for p t
    by (simp add: load_runtime_def Log_def Let_def split: option.splits)
  moreover have "\<exists>later. logged (load_runtime sys p t) = logged t @ later" for p t
    by (simp add: load_runtime_def Log_def Let_def split: option.splits)
  ultimately show ?thesis
    unfolding i using m g by (metis append.assoc)
qed

theorem configuration_lines_witness:
  "configFile (sample_system (Some [''runtime=real'', ''bogus'', ''maskExtension=XR_A'', ''x=y'',
        ''runtime=?'', ''maskExtension=XR_A'']) True True) =
     Some [''runtime=real'', ''bogus'', ''maskExtension=XR_A'', ''x=y'', ''runtime=?'',
        ''maskExtension=XR_A'']
   \<and> extensionsToMask (initializeWrapper
         (sample_system (Some [''runtime=real'', ''bogus'', ''maskExtension=XR_A'', ''x=y'',
            ''runtime=?'', ''maskExtension=XR_A'']) True True) initial_state) =
       [''XR_A'', ''XR_A'']
   \<and> (\<exists>later. logged (initializeWrapper
         (sample_system (Some [''runtime=real'', ''bogus'', ''maskExtension=XR_A'', ''x=y'',
            ''runtime=?'', ''maskExtension=XR_A'']) True True) initial_state) =
       [Improperly_formatted_option 2, Masking_extension ''XR_A'', Unrecognized_option 4 ''x'',
        Parsing_error 5, Masking_extension ''XR_A''] @ later)"
proof -
  let ?lines = "[''runtime=real'', ''bogus'', ''maskExtension=XR_A'', ''x=y'', ''runtime=?'',
        ''maskExtension=XR_A'']"
  let ?sys = "sample_system (Some ?lines) True True"
  have h: "configFile ?sys = Some ?lines"
    by code_simp
  have e0: "extensionsToMask initial_state = []" "logged initial_state = []"
    by code_simp+
  have e1: "mask_lines ?lines = [''XR_A'', ''XR_A'']"
    by code_simp
  have e2: "concat (map (\<lambda>(i, l). line_report ?sys (of_nat i) l) (enumerate 1 ?lines)) =
              [Improperly_formatted_option 2, Masking_extension ''XR_A'',
               Unrecognized_option 4 ''x'', Parsing_error 5, Masking_extension ''XR_A'']"
    by code_simp
  show ?thesis
    using h configuration_lines [OF h, of initial_state] unfolding e0 e1 e2 by simp
qed

text \<open>
  C10. One iteration of the masking loop removes the earliest record of the entry's name,
  if any. After the loop, of the records of a name the first \<open>min k m\<close> are gone, where
  the name occurs \<open>k\<close> times in the list to mask and \<open>m\<close> times in the chained list; the
  rest stays in order. The count the wrapper reports is the chained count less the number
  of records removed, hence at most the chained count.
\<close>

theorem masking_removes_earliest:
  assumes "next_xrEnumerateInstanceExtensionProperties s \<noteq> nullptr"
    and "enumerate_at rt (next_xrEnumerateInstanceExtensionProperties s) None 0 cnt None w =
           ((r1, n, b1), w1)"
    and "XR_SUCCEEDED r1"
    and "enumerate_at rt (next_xrEnumerateInstanceExtensionProperties s) None n n
           (Some (replicate (unat n) blank_properties)) w1 = ((r2, n2, Some recs), w2)"
    and "XR_SUCCEEDED r2"
    and "length recs = unat n"
  shows "mask_one nm recs =
           takeWhile (\<lambda>p. extensionName p \<noteq> nm) recs @
           drop 1 (dropWhile (\<lambda>p. extensionName p \<noteq> nm) recs)
         \<and> filter (\<lambda>p. extensionName p = nm) (mask_extensions (extensionsToMask s) recs) =
             drop (min (count_list (extensionsToMask s) nm) (count_list (map extensionName recs) nm))
               (filter (\<lambda>p. extensionName p = nm) recs)
         \<and> count_list (map extensionName (mask_extensions (extensionsToMask s) recs)) nm =
             count_list (map extensionName recs) nm -
             min (count_list (extensionsToMask s) nm) (count_list (map extensionName recs) nm)
         \<and> subseq (mask_extensions (extensionsToMask s) recs) recs
         \<and> length (mask_extensions (extensionsToMask s) recs) =
             length recs -
             (\<Sum>x \<in> set (extensionsToMask s).
                min (count_list (extensionsToMask s) x) (count_list (map extensionName recs) x))
         \<and> (\<exists>r count props'.
               xrEnumerateInstanceExtensionProperties rt s None cap cnt props w =
                 Inr ((r, count, props'), w2)
               \<and> unat count =
                   unat n -
                   (\<Sum>x \<in> set (extensionsToMask s).
                      min (count_list (extensionsToMask s) x)
                        (count_list (map extensionName recs) x))
               \<and> unat count \<le> unat n)"
proof -
  let ?M = "extensionsToMask s"
  let ?F = "mask_extensions ?M recs"
  have a: "mask_one nm recs =
           takeWhile (\<lambda>p. extensionName p \<noteq> nm) recs @
           drop 1 (dropWhile (\<lambda>p. extensionName p \<noteq> nm) recs)"
    by (rule mask_one_first)
  have b: "filter (\<lambda>p. extensionName p = nm) ?F =
             drop (min (count_list ?M nm) (count_list (map extensionName recs) nm))
               (filter (\<lambda>p. extensionName p = nm) recs)"
    by (simp add: filter_mask_extensions_name count_list_map_filter min_def)
  have c: "count_list (map extensionName ?F) nm =
             count_list (map extensionName recs) nm -
             min (count_list ?M nm) (count_list (map extensionName recs) nm)"
    unfolding count_list_map_filter [of extensionName ?F] b
    by (simp add: count_list_map_filter)
  have d: "subseq ?F recs"
    by (rule subseq_mask_extensions)
  have e: "length ?F = length recs -
             (\<Sum>x \<in> set ?M. min (count_list ?M x) (count_list (map extensionName recs) x))"
    using length_mask_extensions [of ?M recs] by linarith
  have u: "unat (of_nat (length ?F) :: 32 word) = length ?F"
    by (rule unat_filtered_count [OF assms(6)])
  have f: "\<exists>r count props'.
               xrEnumerateInstanceExtensionProperties rt s None cap cnt props w =
                 Inr ((r, count, props'), w2)
               \<and> unat count =
                   unat n -
                   (\<Sum>x \<in> set ?M. min (count_list ?M x) (count_list (map extensionName recs) x))
               \<and> unat count \<le> unat n"
    using xrEnumerate_unqualified [OF assms(1-5), of cap props] u e assms(6) by simp
  from a b c d e f show ?thesis by blast
qed

theorem masking_removes_earliest_witness:
  "next_xrEnumerateInstanceExtensionProperties (sample_state [''XR_A'', ''XR_A'', ''XR_C'']) \<noteq> nullptr
   \<and> enumerate_at (sample_runtime 0 [ext ''XR_A'', ext ''XR_B'', ext ''XR_A'', ext ''XR_A''])
         (next_xrEnumerateInstanceExtensionProperties (sample_state [''XR_A'', ''XR_A'', ''XR_C'']))
         None 0 0 None 0 = ((0, 4, None), 1)
   \<and> XR_SUCCEEDED 0
   \<and> enumerate_at (sample_runtime 0 [ext ''XR_A'', ext ''XR_B'', ext ''XR_A'', ext ''XR_A''])
         (next_xrEnumerateInstanceExtensionProperties (sample_state [''XR_A'', ''XR_A'', ''XR_C'']))
         None 4 4 (Some (replicate (unat (4 :: 32 word)) blank_properties)) 1 =
       ((0, 4, Some [ext ''XR_A'', ext ''XR_B'', ext ''XR_A'', ext ''XR_A'']), 2)
   \<and> length [ext ''XR_A'', ext ''XR_B'', ext ''XR_A'', ext ''XR_A''] = unat (4 :: 32 word)
   \<and> mask_one ''XR_A'' [ext ''XR_A'', ext ''XR_B'', ext ''XR_A'', ext ''XR_A''] =
       [ext ''XR_B'', ext ''XR_A'', ext ''XR_A'']
   \<and> filter (\<lambda>p. extensionName p = ''XR_A'')
         (mask_extensions [''XR_A'', ''XR_A'', ''XR_C'']
            [ext ''XR_A'', ext ''XR_B'', ext ''XR_A'', ext ''XR_A'']) = [ext ''XR_A'']
   \<and> count_list (map extensionName
         (mask_extensions [''XR_A'', ''XR_A'', ''XR_C'']
            [ext ''XR_A'', ext ''XR_B'', ext ''XR_A'', ext ''XR_A''])) ''XR_A'' = 3 - min 2 3
   \<and> subseq (mask_extensions [''XR_A'', ''XR_A'', ''XR_C'']
            [ext ''XR_A'', ext ''XR_B'', ext ''XR_A'', ext ''XR_A''])
         [ext ''XR_A'', ext ''XR_B'', ext ''XR_A'', ext ''XR_A'']
   \<and> length (mask_extensions [''XR_A'', ''XR_A'', ''XR_C'']
            [ext ''XR_A'', ext ''XR_B'', ext ''XR_A'', ext ''XR_A'']) = 4 - 2
   \<and> (\<exists>r count props'.
         xrEnumerateInstanceExtensionProperties
           (sample_runtime 0 [ext ''XR_A'', ext ''XR_B'', ext ''XR_A'', ext ''XR_A''])
           (sample_state [''XR_A'', ''XR_A'', ''XR_C'']) None 0 0 None 0 =
         Inr ((r, count, props'), 2)
         \<and> unat count = 2)"
proof -
  let ?L = "[ext ''XR_A'', ext ''XR_B'', ext ''XR_A'', ext ''XR_A'']"
  let ?M = "[''XR_A'', ''XR_A'', ''XR_C'']"
  let ?s = "sample_state ?M"
  have h1: "next_xrEnumerateInstanceExtensionProperties ?s \<noteq> nullptr"
    by code_simp
  have h2: "enumerate_at (sample_runtime 0 ?L) (next_xrEnumerateInstanceExtensionProperties ?s)
              None 0 0 None 0 = ((0, 4, None), 1)"
    by code_simp
  have h3: "XR_SUCCEEDED 0"
    by code_simp
  have h4: "enumerate_at (sample_runtime 0 ?L) (next_xrEnumerateInstanceExtensionProperties ?s)
              None 4 4 (Some (replicate (unat (4 :: 32 word)) blank_properties)) 1 =
            ((0, 4, Some ?L), 2)"
    by code_simp
  have h5: "length ?L = unat (4 :: 32 word)"
    by code_simp
  have eM: "extensionsToMask ?s = ?M"
    by code_simp
  have e1: "takeWhile (\<lambda>p. extensionName p \<noteq> ''XR_A'') ?L @
              drop 1 (dropWhile (\<lambda>p. extensionName p \<noteq> ''XR_A'') ?L) =
            [ext ''XR_B'', ext ''XR_A'', ext ''XR_A'']"
    by code_simp
  have e2: "count_list ?M ''XR_A'' = 2" "count_list (map extensionName ?L) ''XR_A'' = 3"
    by code_simp+
  have e3: "drop (min 2 3) (filter (\<lambda>p. extensionName p = ''XR_A'') ?L) = [ext ''XR_A'']"
    by code_simp
  have e4: "(\<Sum>x \<in> set ?M. min (count_list ?M x) (count_list (map extensionName ?L) x)) = 2"
    by code_simp
  have e5: "unat (4 :: 32 word) = 4" "length ?L = 4"
    by simp_all
  show ?thesis
    using h1 h2 h3 h4 h5 masking_removes_earliest [OF h1 h2 h3 h4 h3 h5, of "''XR_A''" 0 None]
    unfolding eM e1 e2 e3 e4 e5 by (auto simp del: mask_extensions.simps)
qed

end
